theory Spec2Isabelle
  imports Main
begin

section \<open>The task manager of task\_manager.py\<close>

text \<open>
  A shallow embedding of the class \<open>TaskManager\<close>. The manager keeps no state of its
  own between calls: every public method loads the whole JSON file, changes the loaded
  list in memory and writes the whole list back. The model therefore passes the file
  explicitly: every operation takes the file as it is before the call and returns its
  result together with the file as it is after the call.
\<close>

subsection \<open>Tasks\<close>

text \<open>
  A task is the dictionary built in \<open>add_task\<close>, with the keys \<open>id\<close>,
  \<open>description\<close>, \<open>status\<close>, \<open>createdAt\<close> and \<open>updatedAt\<close>. The key \<open>id\<close> is the field
  \<open>task_id\<close> here (\<open>id\<close> is the identity function of HOL). Python integers are unbounded,
  so the id is an \<open>int\<close>. The status is kept as the string the code stores: nothing in
  the type restricts it to the three valid values.
\<close>

record task =
  task_id :: int
  description :: string
  status :: string
  createdAt :: string
  updatedAt :: string

definition STATUS_TODO :: string where
  "STATUS_TODO = ''todo''"

definition STATUS_IN_PROGRESS :: string where
  "STATUS_IN_PROGRESS = ''in-progress''"

definition STATUS_DONE :: string where
  "STATUS_DONE = ''done''"

definition VALID_STATUSES :: "string set" where
  "VALID_STATUSES = {STATUS_TODO, STATUS_IN_PROGRESS, STATUS_DONE}"

subsection \<open>Errors\<close>

text \<open>
  Every failure of the manager is a Python \<open>ValueError\<close>; the failures differ in their
  message only. One constructor stands for each \<open>raise\<close> of the source:
  \<^item> \<open>ReadFailed\<close>: "Failed to read tasks from ..." in \<open>_get_tasks\<close>;
  \<^item> \<open>SaveFailed\<close>: "Failed to save tasks to ..." in \<open>_save_tasks\<close>;
  \<^item> \<open>DescriptionEmpty\<close>: "Task Description cannot be empty." in \<open>add_task\<close>;
  \<^item> \<open>UpdatedDescriptionEmpty\<close>: "Updated Task Description cannot be empty." in
    \<open>update_task\<close>;
  \<^item> \<open>TaskNotFound i\<close>: "Task with id i not found." in \<open>_update_task_status\<close>,
    \<open>update_task\<close> and \<open>delete_task\<close>;
  \<^item> \<open>InvalidStatusFilter s\<close>: "Invalid status filter: s" in \<open>list_tasks\<close>.
\<close>

datatype error =
    ReadFailed
  | SaveFailed
  | DescriptionEmpty
  | UpdatedDescriptionEmpty
  | TaskNotFound int
  | InvalidStatusFilter string

subsection \<open>The file and the environment of a call\<close>

text \<open>
  The file at \<open>self.path\<close> is absent, or holds text that \<open>json.load\<close> rejects, or holds
  the JSON text of a list of tasks. \<open>Stored ts\<close> stands for the text that
  \<open>json.dump(ts, tf, indent=2)\<close> writes, and \<open>json.load\<close> of that text is \<open>ts\<close> again:
  the serialisation of the \<open>json\<close> library is not modelled character by character.
  Well-formed JSON of any other shape is outside the model.

  What a call reads from outside the file is its environment: the clock value that
  \<open>_get_timestamp\<close> returns during the call, whether opening the file for reading
  raises an \<open>OSError\<close> other than \<open>FileNotFoundError\<close>, and how a write ends. A
  write goes through (\<open>Written\<close>), or \<open>open(self.path, "w")\<close> raises an \<open>OSError\<close>
  and the file is as it was (\<open>OpenRefused\<close>), or the file is opened, which empties
  it, and an \<open>OSError\<close> stops \<open>json.dump\<close> before the text is complete
  (\<open>Interrupted\<close>). What an interrupted write leaves is the empty text or a proper
  prefix of the text of a list, whose opening bracket is never closed: \<open>json.load\<close>
  rejects it.
\<close>

datatype store = Absent | Malformed | Stored "task list"

datatype write_outcome = Written | OpenRefused | Interrupted

record env =
  now :: string
  read_fails :: bool
  write_result :: write_outcome

subsection \<open>Internal methods\<close>

text \<open>\<open>_next_id\<close>: \<open>1 if not tasks else max(t["id"] for t in tasks) + 1\<close>.\<close>

definition next_id :: "task list \<Rightarrow> int" where
  "next_id tasks = (if tasks = [] then 1 else Max (set (map task_id tasks)) + 1)"

text \<open>
  \<open>_get_tasks\<close>: a missing file and a file that is not JSON both give the empty list;
  any other \<open>OSError\<close> is raised as a \<open>ValueError\<close>.
\<close>

definition get_tasks :: "env \<Rightarrow> store \<Rightarrow> error + task list" where
  "get_tasks e st =
     (if read_fails e then Inl ReadFailed
      else case st of
             Absent \<Rightarrow> Inr []
           | Malformed \<Rightarrow> Inr []
           | Stored tasks \<Rightarrow> Inr tasks)"

text \<open>\<open>_get_timestamp\<close>: the clock of the call.\<close>

definition get_timestamp :: "env \<Rightarrow> string" where
  "get_timestamp e = now e"

text \<open>\<open>_find_task\<close>: the first task of the list with the id, \<open>None\<close> when there is none.\<close>

fun find_task :: "task list \<Rightarrow> int \<Rightarrow> task option" where
  "find_task [] tid = None"
| "find_task (t # ts) tid = (if task_id t = tid then Some t else find_task ts tid)"

text \<open>
  The dictionary that \<open>_find_task\<close> returns is the list's own element, not a copy:
  assigning to its keys changes the list that is saved afterwards. \<open>assign_found\<close> is
  that effect on the list: the first task with the id is replaced by the task as it is
  after the assignments; every other position is left as it is.
\<close>

fun assign_found :: "task list \<Rightarrow> int \<Rightarrow> task \<Rightarrow> task list" where
  "assign_found [] tid new = []"
| "assign_found (t # ts) tid new =
     (if task_id t = tid then new # ts else t # assign_found ts tid new)"

text \<open>
  \<open>_save_tasks\<close>: the file is opened with mode \<open>"w"\<close> and the whole list is written.
  An \<open>OSError\<close> from opening or from writing is raised as a \<open>ValueError\<close>.
\<close>

definition save_tasks :: "env \<Rightarrow> task list \<Rightarrow> store \<Rightarrow> (error + unit) \<times> store" where
  "save_tasks e tasks st =
     (case write_result e of
        Written \<Rightarrow> (Inr (), Stored tasks)
      | OpenRefused \<Rightarrow> (Inl SaveFailed, st)
      | Interrupted \<Rightarrow> (Inl SaveFailed, Malformed))"

text \<open>\<open>_update_task_status\<close>: load, find, assign status and updatedAt, save.\<close>

definition update_task_status :: "env \<Rightarrow> int \<Rightarrow> string \<Rightarrow> store \<Rightarrow> (error + task) \<times> store" where
  "update_task_status e tid new_status st =
     (case get_tasks e st of
        Inl err \<Rightarrow> (Inl err, st)
      | Inr tasks \<Rightarrow>
          (case find_task tasks tid of
             None \<Rightarrow> (Inl (TaskNotFound tid), st)
           | Some found \<Rightarrow>
               (let task = found\<lparr>status := new_status, updatedAt := get_timestamp e\<rparr>;
                    tasks' = assign_found tasks tid task
                in case save_tasks e tasks' st of
                     (Inl err, st') \<Rightarrow> (Inl err, st')
                   | (Inr u, st') \<Rightarrow> (Inr task, st'))))"

subsection \<open>Public methods\<close>

text \<open>
  Python's \<open>str.isspace\<close> on the characters below code point 256 (a HOL \<open>char\<close> is one
  such character), and \<open>str.strip()\<close>, which removes the whitespace at both ends.
\<close>

definition isspace :: "char \<Rightarrow> bool" where
  "isspace c \<longleftrightarrow> c \<in> {CHR 0x09, CHR 0x0A, CHR 0x0B, CHR 0x0C, CHR 0x0D,
                     CHR 0x1C, CHR 0x1D, CHR 0x1E, CHR 0x1F, CHR 0x20,
                     CHR 0x85, CHR 0xA0}"

definition strip :: "string \<Rightarrow> string" where
  "strip s = rev (dropWhile isspace (rev (dropWhile isspace s)))"

text \<open>The guard of \<open>add_task\<close> and \<open>update_task\<close>: \<open>not description or not description.strip()\<close>.\<close>

definition blank :: "string \<Rightarrow> bool" where
  "blank d \<longleftrightarrow> d = [] \<or> strip d = []"

definition add_task :: "env \<Rightarrow> string \<Rightarrow> store \<Rightarrow> (error + task) \<times> store" where
  "add_task e d st =
     (if blank d then (Inl DescriptionEmpty, st)
      else case get_tasks e st of
        Inl err \<Rightarrow> (Inl err, st)
      | Inr tasks \<Rightarrow>
          (let new_id = next_id tasks;
               timestamp = get_timestamp e;
               task = \<lparr>task_id = new_id, description = d, status = STATUS_TODO,
                       createdAt = timestamp, updatedAt = timestamp\<rparr>;
               tasks' = tasks @ [task]
           in case save_tasks e tasks' st of
                (Inl err, st') \<Rightarrow> (Inl err, st')
              | (Inr u, st') \<Rightarrow> (Inr task, st')))"

text \<open>
  \<open>list_tasks\<close>: the file is loaded before the filter is checked. The method has no
  call of \<open>_save_tasks\<close>; the file it returns is the one it was given.
\<close>

definition list_tasks :: "env \<Rightarrow> string option \<Rightarrow> store \<Rightarrow> (error + task list) \<times> store" where
  "list_tasks e filter_status st =
     (case get_tasks e st of
        Inl err \<Rightarrow> (Inl err, st)
      | Inr tasks \<Rightarrow>
          (case filter_status of
             None \<Rightarrow> (Inr tasks, st)
           | Some s \<Rightarrow>
               if s \<notin> VALID_STATUSES then (Inl (InvalidStatusFilter s), st)
               else (Inr (filter (\<lambda>t. status t = s) tasks), st)))"

definition update_task :: "env \<Rightarrow> int \<Rightarrow> string \<Rightarrow> store \<Rightarrow> (error + task) \<times> store" where
  "update_task e tid d st =
     (if blank d then (Inl UpdatedDescriptionEmpty, st)
      else case get_tasks e st of
        Inl err \<Rightarrow> (Inl err, st)
      | Inr tasks \<Rightarrow>
          (case find_task tasks tid of
             None \<Rightarrow> (Inl (TaskNotFound tid), st)
           | Some found \<Rightarrow>
               (let task = found\<lparr>description := d, updatedAt := get_timestamp e\<rparr>;
                    tasks' = assign_found tasks tid task
                in case save_tasks e tasks' st of
                     (Inl err, st') \<Rightarrow> (Inl err, st')
                   | (Inr u, st') \<Rightarrow> (Inr task, st'))))"

text \<open>
  \<open>delete_task\<close>: \<open>tasks.remove(task)\<close> removes the first element of the list that is
  equal to the task found, which is \<open>remove1\<close>.
\<close>

definition delete_task :: "env \<Rightarrow> int \<Rightarrow> store \<Rightarrow> (error + task) \<times> store" where
  "delete_task e tid st =
     (case get_tasks e st of
        Inl err \<Rightarrow> (Inl err, st)
      | Inr tasks \<Rightarrow>
          (case find_task tasks tid of
             None \<Rightarrow> (Inl (TaskNotFound tid), st)
           | Some task \<Rightarrow>
               (let tasks' = remove1 task tasks
                in case save_tasks e tasks' st of
                     (Inl err, st') \<Rightarrow> (Inl err, st')
                   | (Inr u, st') \<Rightarrow> (Inr task, st'))))"

definition mark_in_progress :: "env \<Rightarrow> int \<Rightarrow> store \<Rightarrow> (error + task) \<times> store" where
  "mark_in_progress e tid st = update_task_status e tid STATUS_IN_PROGRESS st"

definition mark_done :: "env \<Rightarrow> int \<Rightarrow> store \<Rightarrow> (error + task) \<times> store" where
  "mark_done e tid st = update_task_status e tid STATUS_DONE st"

subsection \<open>Sequences of calls\<close>

text \<open>
  The five mutating calls a client can make (the subcommands of task\_cli.py other than
  \<open>list\<close>), and the files that a sequence of such calls, each in an environment of its
  own, can produce from a file that loads as the empty collection.
\<close>

datatype command =
    Add string
  | Update int string
  | Delete int
  | MarkInProgress int
  | MarkDone int

fun run_command :: "env \<Rightarrow> command \<Rightarrow> store \<Rightarrow> (error + task) \<times> store" where
  "run_command e (Add d) st = add_task e d st"
| "run_command e (Update tid d) st = update_task e tid d st"
| "run_command e (Delete tid) st = delete_task e tid st"
| "run_command e (MarkInProgress tid) st = mark_in_progress e tid st"
| "run_command e (MarkDone tid) st = mark_done e tid st"

fun run_commands :: "env \<Rightarrow> command list \<Rightarrow> store \<Rightarrow> store" where
  "run_commands e [] st = st"
| "run_commands e (c # cs) st = run_commands e cs (snd (run_command e c st))"

inductive reachable :: "store \<Rightarrow> bool" where
  absent: "reachable Absent"
| malformed: "reachable Malformed"
| empty: "reachable (Stored [])"
| step: "reachable st \<Longrightarrow> reachable (snd (run_command e c st))"

text \<open>An environment in which the clock reads \<open>t\<close> and the file can be read and written.\<close>

definition working :: "string \<Rightarrow> env" where
  "working t = \<lparr>now = t, read_fails = False, write_result = Written\<rparr>"

text \<open>An environment in which the file can be opened neither for reading nor for writing.\<close>

definition broken :: "string \<Rightarrow> env" where
  "broken t = \<lparr>now = t, read_fails = True, write_result = OpenRefused\<rparr>"

text \<open>The collection that a file holds: what a load that does not fail returns.\<close>

definition collection :: "store \<Rightarrow> task list" where
  "collection st = (case st of Absent \<Rightarrow> [] | Malformed \<Rightarrow> [] | Stored tasks \<Rightarrow> tasks)"

subsection \<open>A sample file\<close>

text \<open>Two tasks with a gap between their ids, used where a concrete file is needed.\<close>

definition buy_milk :: task where
  "buy_milk = \<lparr>task_id = 1, description = ''Buy milk'', status = ''todo'',
                createdAt = ''t0'', updatedAt = ''t0''\<rparr>"

definition buy_eggs :: task where
  "buy_eggs = \<lparr>task_id = 3, description = ''Buy eggs'', status = ''done'',
                createdAt = ''t1'', updatedAt = ''t2''\<rparr>"

definition sample :: store where
  "sample = Stored [buy_milk, buy_eggs]"

section \<open>Properties\<close>

subsection \<open>Evaluation and the sample file\<close>

lemmas manager_defs =
  add_task_def update_task_def delete_task_def mark_in_progress_def mark_done_def
  update_task_status_def get_tasks_def save_tasks_def get_timestamp_def
  next_id_def blank_def strip_def isspace_def working_def collection_def
  STATUS_TODO_def STATUS_IN_PROGRESS_def STATUS_DONE_def VALID_STATUSES_def Let_def

lemmas sample_defs = buy_milk_def buy_eggs_def sample_def

lemma blank_spaces: "blank ''   ''"
  by (simp add: blank_def strip_def isspace_def)

lemma not_blank_padded: "\<not> blank ''  x  ''"
  by (simp add: blank_def strip_def isspace_def)

lemma get_tasks_sample: "get_tasks (working t) sample = Inr [buy_milk, buy_eggs]"
  by (simp add: get_tasks_def working_def sample_def)

subsection \<open>Loading and finding\<close>

lemma get_tasks_collection:
  "get_tasks e st = Inr ts \<longleftrightarrow> \<not> read_fails e \<and> ts = collection st"
  by (auto simp: get_tasks_def collection_def split: store.splits)

lemma get_tasks_Inl:
  "get_tasks e st = Inl err \<longleftrightarrow> read_fails e \<and> err = ReadFailed"
  by (auto simp: get_tasks_def split: store.splits)

lemma find_task_None: "find_task ts tid = None \<longleftrightarrow> tid \<notin> task_id ` set ts"
  by (induction ts) auto

lemma find_task_Some: "find_task ts tid = Some t \<Longrightarrow> t \<in> set ts \<and> task_id t = tid"
  by (induction ts) (auto split: if_splits)

text \<open>
  The task found sits at the first position with the id; assigning to it is a list
  update at that position and removing it cuts that position out.
\<close>

lemma find_task_first:
  "find_task ts tid = Some t \<Longrightarrow>
     \<exists>k<length ts. ts ! k = t \<and> (\<forall>j<k. task_id (ts ! j) \<noteq> tid)
       \<and> (\<forall>new. assign_found ts tid new = ts[k := new])
       \<and> remove1 t ts = take k ts @ drop (Suc k) ts"
proof (induction ts)
  case Nil
  then show ?case by simp
next
  case (Cons a ts)
  show ?case
  proof (cases "task_id a = tid")
    case True
    with Cons.prems have "a = t" by simp
    with True show ?thesis by (intro exI [of _ 0]) simp
  next
    case False
    with Cons.prems have f: "find_task ts tid = Some t" by simp
    from Cons.IH [OF f] obtain k where k: "k < length ts" "ts ! k = t"
      "\<forall>j<k. task_id (ts ! j) \<noteq> tid" "\<forall>new. assign_found ts tid new = ts[k := new]"
      "remove1 t ts = take k ts @ drop (Suc k) ts" by blast
    from f have "task_id t = tid" by (simp add: find_task_Some)
    with False have ne: "a \<noteq> t" by auto
    have "\<forall>j<Suc k. task_id ((a # ts) ! j) \<noteq> tid"
      using False k(3) by (auto simp: less_Suc_eq_0_disj)
    with k ne False show ?thesis
      by (intro exI [of _ "Suc k"]) simp
  qed
qed

lemma find_task_assign_found:
  "find_task ts tid = Some t \<Longrightarrow> task_id new = tid \<Longrightarrow>
   find_task (assign_found ts tid new) tid = Some new"
  by (induction ts) (auto split: if_splits)

lemma set_assign_found: "set (assign_found ts tid new) \<subseteq> insert new (set ts)"
  by (induction ts) auto

lemma map_createdAt_assign_found:
  "find_task ts tid = Some t \<Longrightarrow> createdAt new = createdAt t \<Longrightarrow>
   map createdAt (assign_found ts tid new) = map createdAt ts"
  by (induction ts) (auto split: if_splits)

lemma next_id_greater: "u \<in> set ts \<Longrightarrow> task_id u < next_id ts"
proof -
  assume u: "u \<in> set ts"
  then have "task_id u \<le> Max (set (map task_id ts))" by (intro Max_ge) auto
  with u show ?thesis by (auto simp: next_id_def)
qed

lemma next_id_positive: "\<forall>u\<in>set ts. 0 < task_id u \<Longrightarrow> 0 < next_id ts"
proof (cases ts)
  case Nil
  then show ?thesis by (simp add: next_id_def)
next
  case (Cons u us)
  assume "\<forall>u\<in>set ts. 0 < task_id u"
  with Cons next_id_greater [of u ts] show ?thesis by fastforce
qed

subsection \<open>When a call succeeds, and what a failed call leaves\<close>

lemma add_task_Inr:
  "add_task e d st = (Inr t, st') \<longleftrightarrow>
     \<not> blank d \<and> \<not> read_fails e \<and> write_result e = Written
     \<and> t = \<lparr>task_id = next_id (collection st), description = d, status = STATUS_TODO,
             createdAt = now e, updatedAt = now e\<rparr>
     \<and> st' = Stored (collection st @ [t])"
  by (auto simp: add_task_def save_tasks_def get_timestamp_def Let_def get_tasks_collection
      get_tasks_Inl split: sum.splits write_outcome.splits)

lemma update_task_Inr:
  "update_task e tid d st = (Inr t, st') \<longleftrightarrow>
     \<not> blank d \<and> \<not> read_fails e \<and> write_result e = Written
     \<and> (\<exists>found. find_task (collection st) tid = Some found
            \<and> t = found\<lparr>description := d, updatedAt := now e\<rparr>)
     \<and> st' = Stored (assign_found (collection st) tid t)"
  by (auto simp: update_task_def save_tasks_def get_timestamp_def Let_def get_tasks_collection
      get_tasks_Inl split: sum.splits option.splits write_outcome.splits)

lemma update_task_status_Inr:
  "update_task_status e tid s st = (Inr t, st') \<longleftrightarrow>
     \<not> read_fails e \<and> write_result e = Written
     \<and> (\<exists>found. find_task (collection st) tid = Some found
            \<and> t = found\<lparr>status := s, updatedAt := now e\<rparr>)
     \<and> st' = Stored (assign_found (collection st) tid t)"
  by (auto simp: update_task_status_def save_tasks_def get_timestamp_def Let_def
      get_tasks_collection get_tasks_Inl split: sum.splits option.splits write_outcome.splits)

lemma delete_task_Inr:
  "delete_task e tid st = (Inr t, st') \<longleftrightarrow>
     \<not> read_fails e \<and> write_result e = Written
     \<and> find_task (collection st) tid = Some t
     \<and> st' = Stored (remove1 t (collection st))"
  by (auto simp: delete_task_def save_tasks_def Let_def
      get_tasks_collection get_tasks_Inl split: sum.splits option.splits write_outcome.splits)

lemma add_task_Inl: "add_task e d st = (Inl err, st') \<Longrightarrow> st' = st \<or> st' = Malformed"
  by (auto simp: add_task_def save_tasks_def Let_def split: sum.splits if_splits write_outcome.splits)

lemma update_task_Inl: "update_task e tid d st = (Inl err, st') \<Longrightarrow> st' = st \<or> st' = Malformed"
  by (auto simp: update_task_def save_tasks_def Let_def
      split: sum.splits if_splits option.splits write_outcome.splits)

lemma update_task_status_Inl: "update_task_status e tid s st = (Inl err, st') \<Longrightarrow> st' = st \<or> st' = Malformed"
  by (auto simp: update_task_status_def save_tasks_def Let_def
      split: sum.splits if_splits option.splits write_outcome.splits)

lemma delete_task_Inl: "delete_task e tid st = (Inl err, st') \<Longrightarrow> st' = st \<or> st' = Malformed"
  by (auto simp: delete_task_def save_tasks_def Let_def
      split: sum.splits if_splits option.splits write_outcome.splits)

lemma run_command_Inl: "run_command e c st = (Inl err, st') \<Longrightarrow> st' = st \<or> st' = Malformed"
  by (cases c) (auto simp: mark_in_progress_def mark_done_def
      dest: add_task_Inl update_task_Inl update_task_status_Inl delete_task_Inl)

lemma run_command_Inr:
  "run_command e c st = (Inr t, st') \<Longrightarrow>
     \<not> read_fails e \<and> write_result e = Written \<and>
     (case c of
        Add d \<Rightarrow> st' = Stored (collection st @ [t]) \<and> task_id t = next_id (collection st)
          \<and> status t = STATUS_TODO \<and> createdAt t = now e \<and> updatedAt t = now e
          \<and> description t = d
      | Update tid d \<Rightarrow> st' = Stored (assign_found (collection st) tid t)
          \<and> (\<exists>found. find_task (collection st) tid = Some found
                \<and> t = found\<lparr>description := d, updatedAt := now e\<rparr>)
      | Delete tid \<Rightarrow> st' = Stored (remove1 t (collection st))
          \<and> find_task (collection st) tid = Some t
      | MarkInProgress tid \<Rightarrow> st' = Stored (assign_found (collection st) tid t)
          \<and> (\<exists>found. find_task (collection st) tid = Some found
                \<and> t = found\<lparr>status := STATUS_IN_PROGRESS, updatedAt := now e\<rparr>)
      | MarkDone tid \<Rightarrow> st' = Stored (assign_found (collection st) tid t)
          \<and> (\<exists>found. find_task (collection st) tid = Some found
                \<and> t = found\<lparr>status := STATUS_DONE, updatedAt := now e\<rparr>))"
  by (cases c)
    (auto simp: add_task_Inr update_task_Inr delete_task_Inr update_task_status_Inr
      mark_in_progress_def mark_done_def)

subsection \<open>Invariants of the files that calls produce\<close>

lemma run_command_set:
  assumes "run_command e c st = (Inr t, st')"
  shows "set (collection st') \<subseteq> insert t (set (collection st))"
proof -
  have "set (remove1 t (collection st)) \<subseteq> set (collection st)"
    by (rule set_remove1_subset)
  with run_command_Inr [OF assms] set_assign_found [of "collection st" _ t] show ?thesis
    by (cases c) (auto simp: collection_def)
qed

lemma run_command_status:
  assumes "run_command e c st = (Inr t, st')"
    and "\<forall>u\<in>set (collection st). status u \<in> VALID_STATUSES"
  shows "status t \<in> VALID_STATUSES"
proof -
  have found: "find_task (collection st) tid = Some found \<Longrightarrow> status found \<in> VALID_STATUSES"
    for tid found using assms(2) find_task_Some by blast
  have valid: "STATUS_TODO \<in> VALID_STATUSES" "STATUS_IN_PROGRESS \<in> VALID_STATUSES"
    "STATUS_DONE \<in> VALID_STATUSES" by (simp_all add: VALID_STATUSES_def)
  from run_command_Inr [OF assms(1)] show ?thesis
    by (cases c) (auto simp: valid dest: found)
qed

lemma reachable_statuses:
  "reachable st \<Longrightarrow> \<forall>u\<in>set (collection st). status u \<in> VALID_STATUSES"
proof (induction rule: reachable.induct)
  case (step st e c)
  obtain r st' where r: "run_command e c st = (r, st')" by (cases "run_command e c st")
  show ?case
  proof (cases r)
    case (Inl err)
    with r step.IH show ?thesis by (auto simp: collection_def dest: run_command_Inl)
  next
    case (Inr t)
    with r run_command_set [of e c st t st'] run_command_status [of e c st t st'] step.IH
    show ?thesis by auto
  qed
qed (simp_all add: collection_def)

text \<open>
  Every id in a file that calls have produced from an empty one is positive.
\<close>

lemma reachable_ids_positive:
  "reachable st \<Longrightarrow> \<forall>u\<in>set (collection st). 0 < task_id u"
proof (induction rule: reachable.induct)
  case (step st e c)
  obtain r st' where r: "run_command e c st = (r, st')" by (cases "run_command e c st")
  show ?case
  proof (cases r)
    case (Inl err)
    with r step.IH show ?thesis by (auto simp: collection_def dest: run_command_Inl)
  next
    case (Inr t)
    have "0 < next_id (collection st)"
      using step.IH by (rule next_id_positive)
    moreover have "find_task (collection st) tid = Some found \<Longrightarrow> 0 < task_id found"
      for tid found using step.IH find_task_Some by blast
    ultimately have "0 < task_id t"
      using run_command_Inr [of e c st t st'] r Inr by (cases c) auto
    with r Inr run_command_set [of e c st t st'] step.IH show ?thesis by auto
  qed
qed (simp_all add: collection_def)

lemma reachable_run_commands: "reachable st \<Longrightarrow> reachable (run_commands e cs st)"
  by (induction cs arbitrary: st) (auto intro: reachable.step)

section \<open>The claims\<close>

subsection \<open>C1: the id that add assigns\<close>




subsection \<open>C2: an id that is not in the collection\<close>

text \<open>
  C2, as stated, fails for \<open>update\<close>: with a blank description the guard of
  \<open>update_task\<close> raises its empty-description error before the file is loaded, also
  when no task has the id. The sample file has no task with id 2.
\<close>

theorem update_blank_missing_id:
  "get_tasks (working ''t3'') sample = Inr [buy_milk, buy_eggs]
   \<and> 2 \<notin> task_id ` set [buy_milk, buy_eggs]
   \<and> update_task (working ''t3'') 2 '''' sample = (Inl UpdatedDescriptionEmpty, sample)
   \<and> fst (update_task (working ''t3'') 2 '''' sample) \<noteq> Inl (TaskNotFound 2)"
  by (simp add: update_task_def blank_def get_tasks_def working_def sample_defs)

text \<open>
  C2, amended. When the file loads and no task of the loaded collection has the id,
  \<open>delete_task\<close>, \<open>mark_in_progress\<close> and \<open>mark_done\<close>, and \<open>update_task\<close> called
  with a description that passes the guard, raise the not-found error for that id, and
  the file after the call is the file before it.
\<close>

theorem missing_id_not_found:
  assumes "get_tasks e st = Inr ts" and "tid \<notin> task_id ` set ts" and "\<not> blank d"
  shows "update_task e tid d st = (Inl (TaskNotFound tid), st)
       \<and> delete_task e tid st = (Inl (TaskNotFound tid), st)
       \<and> mark_in_progress e tid st = (Inl (TaskNotFound tid), st)
       \<and> mark_done e tid st = (Inl (TaskNotFound tid), st)"
proof -
  from assms(2) have "find_task ts tid = None" by (simp add: find_task_None)
  with assms(1,3) show ?thesis
    by (simp add: delete_task_def mark_in_progress_def mark_done_def update_task_status_def
        update_task_def)
qed

theorem missing_id_not_found_witness:
  "get_tasks (working ''t3'') sample = Inr [buy_milk, buy_eggs]
   \<and> 2 \<notin> task_id ` set [buy_milk, buy_eggs]
   \<and> \<not> blank ''Buy bread''
   \<and> update_task (working ''t3'') 2 ''Buy bread'' sample = (Inl (TaskNotFound 2), sample)
   \<and> delete_task (working ''t3'') 2 sample = (Inl (TaskNotFound 2), sample)
   \<and> mark_in_progress (working ''t3'') 2 sample = (Inl (TaskNotFound 2), sample)
   \<and> mark_done (working ''t3'') 2 sample = (Inl (TaskNotFound 2), sample)"
proof -
  have h1: "get_tasks (working ''t3'') sample = Inr [buy_milk, buy_eggs]"
    by (rule get_tasks_sample)
  have h2: "2 \<notin> task_id ` set [buy_milk, buy_eggs]"
    by (simp add: sample_defs)
  have h3: "\<not> blank ''Buy bread''"
    by (simp add: blank_def strip_def isspace_def)
  from missing_id_not_found [OF h1 h2 h3] h1 h2 h3 show ?thesis
    by blast
qed

subsection \<open>C3: what add returns\<close>

text \<open>
  C3. When the description is not empty after stripping, the file loads, its ids are
  positive (as the ids of every file produced by the manager are) and the file can be
  written, \<open>add_task\<close> returns a task with status "todo", equal createdAt and
  updatedAt, a positive id, and the description exactly as it was passed, surrounding
  whitespace included; that task is the last one of the collection written.
\<close>

theorem add_returns_new_todo:
  assumes "\<not> blank d" and "get_tasks e st = Inr ts" and "\<forall>u\<in>set ts. 0 < task_id u"
    and "write_result e = Written"
  shows "\<exists>t. add_task e d st = (Inr t, Stored (ts @ [t]))
           \<and> status t = ''todo'' \<and> createdAt t = updatedAt t \<and> 0 < task_id t
           \<and> description t = d"
proof -
  define t where "t = \<lparr>task_id = next_id ts, description = d, status = STATUS_TODO,
    createdAt = now e, updatedAt = now e\<rparr>"
  from assms have "\<not> read_fails e" "ts = collection st"
    by (simp_all add: get_tasks_collection)
  with assms have run: "add_task e d st = (Inr t, Stored (ts @ [t]))"
    by (simp add: add_task_Inr t_def)
  from assms(3) have "0 < next_id ts" by (rule next_id_positive)
  with run show ?thesis by (intro exI [of _ t]) (simp add: t_def STATUS_TODO_def)
qed

theorem add_returns_new_todo_witness:
  "\<not> blank ''  x  ''
   \<and> get_tasks (working ''t3'') sample = Inr [buy_milk, buy_eggs]
   \<and> 0 < task_id buy_milk \<and> 0 < task_id buy_eggs
   \<and> write_result (working ''t3'') = Written
   \<and> (\<exists>t. add_task (working ''t3'') ''  x  '' sample
             = (Inr t, Stored ([buy_milk, buy_eggs] @ [t]))
          \<and> status t = ''todo'' \<and> createdAt t = updatedAt t \<and> 0 < task_id t
          \<and> description t = ''  x  '')"
proof -
  have h1: "\<not> blank ''  x  ''" by (rule not_blank_padded)
  have h2: "get_tasks (working ''t3'') sample = Inr [buy_milk, buy_eggs]"
    by (rule get_tasks_sample)
  have h3: "\<forall>u\<in>set [buy_milk, buy_eggs]. 0 < task_id u" by (simp add: sample_defs)
  have h4: "write_result (working ''t3'') = Written" by (simp add: working_def)
  from h3 have h3': "0 < task_id buy_milk \<and> 0 < task_id buy_eggs" by simp
  from add_returns_new_todo [OF h1 h2 h3 h4] h1 h2 h3' h4 show ?thesis by blast
qed

subsection \<open>C4: listing\<close>

text \<open>
  C4. When the file loads, \<open>list_tasks\<close> without a filter returns the loaded
  collection as it is, and with one of the three status values it returns the tasks
  of that collection whose status is the value, in the order they have there. In both
  cases the file after the call is the file before it.
\<close>

theorem list_filters_by_status:
  assumes "get_tasks e st = Inr ts" and "s \<in> {''todo'', ''in-progress'', ''done''}"
  shows "list_tasks e None st = (Inr ts, st)
       \<and> list_tasks e (Some s) st = (Inr (filter (\<lambda>t. status t = s) ts), st)"
  using assms
  by (auto simp: list_tasks_def VALID_STATUSES_def STATUS_TODO_def STATUS_IN_PROGRESS_def
      STATUS_DONE_def)

theorem list_filters_by_status_witness:
  "get_tasks (working ''t3'') sample = Inr [buy_milk, buy_eggs]
   \<and> ''done'' \<in> {''todo'', ''in-progress'', ''done''}
   \<and> list_tasks (working ''t3'') None sample = (Inr [buy_milk, buy_eggs], sample)
   \<and> list_tasks (working ''t3'') (Some ''done'') sample = (Inr [buy_eggs], sample)"
proof -
  have h1: "get_tasks (working ''t3'') sample = Inr [buy_milk, buy_eggs]"
    by (rule get_tasks_sample)
  have h2: "''done'' \<in> {''todo'', ''in-progress'', ''done''}" by simp
  from list_filters_by_status [OF h1 h2] h1 h2 show ?thesis
    by (simp add: sample_defs)
qed

subsection \<open>C5: reloading after a mutation\<close>



subsection \<open>C6: blank descriptions\<close>

text \<open>
  C6. When the description is empty, or empty after stripping whitespace, \<open>add_task\<close>
  and \<open>update_task\<close> both raise their empty-description error, and the file after the
  call is the file before it, whatever the file, the id and the environment are.
\<close>

theorem blank_description_rejected:
  assumes "blank d"
  shows "add_task e d st = (Inl DescriptionEmpty, st)
       \<and> update_task e tid d st = (Inl UpdatedDescriptionEmpty, st)"
  using assms by (simp add: add_task_def update_task_def)

theorem blank_description_rejected_witness:
  "blank ''   ''
   \<and> add_task (working ''t'') ''   '' (Stored []) = (Inl DescriptionEmpty, Stored [])
   \<and> update_task (working ''t'') 1 ''   '' (Stored []) = (Inl UpdatedDescriptionEmpty, Stored [])"
  using blank_description_rejected [OF blank_spaces, of "working ''t''" "Stored []" 1]
    blank_spaces by simp

subsection \<open>C7: the two timestamps\<close>

text \<open>
  C7. When update, mark-in-progress or mark-done succeeds on an id, the task found
  for that id and the task returned have the same createdAt, the returned task's
  updatedAt is the timestamp of the call, the returned task is the one a lookup of
  the id finds in the file written, and the createdAt values of the whole collection
  are, position by position, what they were.
\<close>

theorem createdAt_kept_updatedAt_refreshed:
  assumes "c = Update tid d \<or> c = MarkInProgress tid \<or> c = MarkDone tid"
    and "get_tasks e st = Inr ts"
    and "run_command e c st = (Inr t', st')"
  shows "\<exists>t ts'. find_task ts tid = Some t \<and> st' = Stored ts' \<and> find_task ts' tid = Some t'
           \<and> createdAt t' = createdAt t \<and> updatedAt t' = get_timestamp e
           \<and> map createdAt ts' = map createdAt ts"
proof -
  from assms(2) have ts: "ts = collection st" by (simp add: get_tasks_collection)
  from run_command_Inr [OF assms(3)] assms(1) ts
  obtain t where t: "find_task ts tid = Some t" "st' = Stored (assign_found ts tid t')"
    "createdAt t' = createdAt t" "updatedAt t' = now e" "task_id t' = task_id t"
    by auto
  from t(1) have "task_id t = tid" by (simp add: find_task_Some)
  with t have "find_task (assign_found ts tid t') tid = Some t'"
    by (simp add: find_task_assign_found)
  moreover from t have "map createdAt (assign_found ts tid t') = map createdAt ts"
    by (simp add: map_createdAt_assign_found)
  ultimately show ?thesis using t by (simp add: get_timestamp_def)
qed

theorem createdAt_kept_updatedAt_refreshed_witness:
  "get_tasks (working ''t3'') sample = Inr [buy_milk, buy_eggs]
   \<and> run_command (working ''t3'') (Update 3 ''Buy a dozen eggs'') sample
      = (Inr (buy_eggs\<lparr>description := ''Buy a dozen eggs'', updatedAt := ''t3''\<rparr>),
         Stored [buy_milk, buy_eggs\<lparr>description := ''Buy a dozen eggs'', updatedAt := ''t3''\<rparr>])
   \<and> createdAt (buy_eggs\<lparr>description := ''Buy a dozen eggs'', updatedAt := ''t3''\<rparr>) = ''t1''
   \<and> updatedAt (buy_eggs\<lparr>description := ''Buy a dozen eggs'', updatedAt := ''t3''\<rparr>)
      = get_timestamp (working ''t3'')"
proof -
  have h1: "Update 3 ''Buy a dozen eggs'' = Update 3 ''Buy a dozen eggs''
      \<or> Update 3 ''Buy a dozen eggs'' = MarkInProgress 3
      \<or> Update 3 ''Buy a dozen eggs'' = MarkDone 3" by simp
  have h2: "get_tasks (working ''t3'') sample = Inr [buy_milk, buy_eggs]"
    by (rule get_tasks_sample)
  have h3: "run_command (working ''t3'') (Update 3 ''Buy a dozen eggs'') sample
      = (Inr (buy_eggs\<lparr>description := ''Buy a dozen eggs'', updatedAt := ''t3''\<rparr>),
         Stored [buy_milk, buy_eggs\<lparr>description := ''Buy a dozen eggs'', updatedAt := ''t3''\<rparr>])"
    by (simp add: manager_defs sample_defs)
  have f: "find_task [buy_milk, buy_eggs] 3 = Some buy_eggs" by (simp add: sample_defs)
  from createdAt_kept_updatedAt_refreshed [OF h1 h2 h3] f
  have "createdAt (buy_eggs\<lparr>description := ''Buy a dozen eggs'', updatedAt := ''t3''\<rparr>)
          = createdAt buy_eggs
      \<and> updatedAt (buy_eggs\<lparr>description := ''Buy a dozen eggs'', updatedAt := ''t3''\<rparr>)
          = get_timestamp (working ''t3'')" by auto
  with h2 h3 show ?thesis by (simp add: buy_eggs_def)
qed

subsection \<open>C8: the status values that are persisted\<close>

text \<open>
  C8. In every file that a sequence of add, update, delete, mark-in-progress and
  mark-done calls produces from a file that loads as the empty collection, every task
  has one of the statuses "todo", "in-progress" and "done".
\<close>

theorem reachable_status_valid:
  assumes "reachable st" and "get_tasks e st = Inr ts" and "t \<in> set ts"
  shows "status t \<in> {''todo'', ''in-progress'', ''done''}"
  using reachable_statuses [OF assms(1)] assms(2,3)
  by (simp add: get_tasks_collection VALID_STATUSES_def STATUS_TODO_def
      STATUS_IN_PROGRESS_def STATUS_DONE_def)

theorem reachable_status_valid_witness:
  "reachable (run_commands (working ''t'') [Add ''A'', MarkInProgress 1] Absent)
   \<and> get_tasks (working ''t'') (run_commands (working ''t'') [Add ''A'', MarkInProgress 1] Absent)
      = Inr [\<lparr>task_id = 1, description = ''A'', status = ''in-progress'',
               createdAt = ''t'', updatedAt = ''t''\<rparr>]
   \<and> status \<lparr>task_id = 1, description = ''A'', status = ''in-progress'',
               createdAt = ''t'', updatedAt = ''t''\<rparr> \<in> {''todo'', ''in-progress'', ''done''}"
proof -
  have h1: "reachable (run_commands (working ''t'') [Add ''A'', MarkInProgress 1] Absent)"
    by (rule reachable_run_commands) (rule reachable.absent)
  have h2: "get_tasks (working ''t'') (run_commands (working ''t'') [Add ''A'', MarkInProgress 1] Absent)
      = Inr [\<lparr>task_id = 1, description = ''A'', status = ''in-progress'',
               createdAt = ''t'', updatedAt = ''t''\<rparr>]"
    by (simp add: manager_defs)
  have h3: "\<lparr>task_id = 1, description = ''A'', status = ''in-progress'',
               createdAt = ''t'', updatedAt = ''t''\<rparr>
       \<in> set [\<lparr>task_id = 1, description = ''A'', status = ''in-progress'',
               createdAt = ''t'', updatedAt = ''t''\<rparr>]" by simp
  from reachable_status_valid [OF h1 h2 h3] h1 h2 show ?thesis by blast
qed

subsection \<open>C9: the guard of update comes first\<close>

text \<open>
  C9. When the description is blank, \<open>update_task\<close> raises its empty-description
  error and returns the file it was given, for every id. The outcome is the same in
  every environment, one in which the file cannot be read included, and the error is
  the same for every file: the file is not consulted, and the error is never the
  not-found error.
\<close>

theorem update_blank_before_lookup:
  assumes "blank d"
  shows "update_task e tid d st = (Inl UpdatedDescriptionEmpty, st)
       \<and> update_task e tid d st = update_task e' tid d st
       \<and> fst (update_task e tid d st) = fst (update_task e tid d st'')
       \<and> fst (update_task e tid d st) \<noteq> Inl (TaskNotFound tid)"
  using assms by (simp add: update_task_def)

theorem update_blank_before_lookup_witness:
  "blank ''   ''
   \<and> update_task (working ''t3'') 2 ''   '' sample = (Inl UpdatedDescriptionEmpty, sample)
   \<and> update_task (broken ''t4'') 2 ''   '' sample = (Inl UpdatedDescriptionEmpty, sample)
   \<and> fst (update_task (working ''t3'') 2 ''   '' Absent) = Inl UpdatedDescriptionEmpty"
proof -
  have h: "blank ''   ''" by (rule blank_spaces)
  from update_blank_before_lookup [OF h, of "working ''t3''" 2 sample "broken ''t4''" Absent]
  have a: "update_task (working ''t3'') 2 ''   '' sample = (Inl UpdatedDescriptionEmpty, sample)"
    and b: "update_task (working ''t3'') 2 ''   '' sample
          = update_task (broken ''t4'') 2 ''   '' sample"
    and c: "fst (update_task (working ''t3'') 2 ''   '' sample)
          = fst (update_task (working ''t3'') 2 ''   '' Absent)"
    by blast+
  from a b have "update_task (broken ''t4'') 2 ''   '' sample = (Inl UpdatedDescriptionEmpty, sample)"
    by (simp only:)
  moreover from a c have "fst (update_task (working ''t3'') 2 ''   '' Absent)
      = Inl UpdatedDescriptionEmpty" by (simp only: fst_conv)
  ultimately show ?thesis using h a by blast
qed

subsection \<open>C10: one record changes\<close>

text \<open>
  C10. When a mutating call succeeds on the loaded collection \<open>ts\<close>: add writes
  \<open>ts\<close> with the returned task appended; delete writes \<open>ts\<close> with one position cut
  out, the first one whose task has the id, and returns the task that was there;
  update, mark-in-progress and mark-done write \<open>ts\<close> with the returned task put at
  one position, the first one whose task has the id. Every other position holds the
  task it held, in the same order.
\<close>

theorem mutation_changes_one_record:
  assumes "get_tasks e st = Inr ts" and "run_command e c st = (Inr t, st')"
  shows "case c of
           Add d \<Rightarrow> st' = Stored (ts @ [t])
         | Delete tid \<Rightarrow>
             (\<exists>k<length ts. ts ! k = t \<and> task_id t = tid \<and> (\<forall>j<k. task_id (ts ! j) \<noteq> tid)
                \<and> st' = Stored (take k ts @ drop (Suc k) ts))
         | Update tid d \<Rightarrow>
             (\<exists>k<length ts. task_id (ts ! k) = tid \<and> (\<forall>j<k. task_id (ts ! j) \<noteq> tid)
                \<and> task_id t = tid \<and> st' = Stored (ts[k := t]))
         | MarkInProgress tid \<Rightarrow>
             (\<exists>k<length ts. task_id (ts ! k) = tid \<and> (\<forall>j<k. task_id (ts ! j) \<noteq> tid)
                \<and> task_id t = tid \<and> st' = Stored (ts[k := t]))
         | MarkDone tid \<Rightarrow>
             (\<exists>k<length ts. task_id (ts ! k) = tid \<and> (\<forall>j<k. task_id (ts ! j) \<noteq> tid)
                \<and> task_id t = tid \<and> st' = Stored (ts[k := t]))"
proof -
  from assms(1) have ts: "ts = collection st" by (simp add: get_tasks_collection)
  have upd: "\<exists>k<length ts. task_id (ts ! k) = tid \<and> (\<forall>j<k. task_id (ts ! j) \<noteq> tid)
                \<and> task_id found = tid \<and> Stored (assign_found ts tid t) = Stored (ts[k := t])"
    if "find_task ts tid = Some found" for tid found
    using find_task_first [OF that] find_task_Some [OF that] by auto
  have del: "\<exists>k<length ts. ts ! k = t \<and> task_id t = tid \<and> (\<forall>j<k. task_id (ts ! j) \<noteq> tid)
                \<and> Stored (remove1 t ts) = Stored (take k ts @ drop (Suc k) ts)"
    if "find_task ts tid = Some t" for tid
    using find_task_first [OF that] find_task_Some [OF that] by auto
  from run_command_Inr [OF assms(2)] ts upd del show ?thesis
    by (cases c) auto
qed

theorem mutation_changes_one_record_witness:
  "get_tasks (working ''t3'') sample = Inr [buy_milk, buy_eggs]
   \<and> run_command (working ''t3'') (Add ''Buy bread'') sample
      = (Inr \<lparr>task_id = 4, description = ''Buy bread'', status = ''todo'',
               createdAt = ''t3'', updatedAt = ''t3''\<rparr>,
         Stored ([buy_milk, buy_eggs] @
                 [\<lparr>task_id = 4, description = ''Buy bread'', status = ''todo'',
                   createdAt = ''t3'', updatedAt = ''t3''\<rparr>]))
   \<and> run_command (working ''t3'') (Delete 1) sample = (Inr buy_milk, Stored [buy_eggs])
   \<and> (\<exists>k<length [buy_milk, buy_eggs]. [buy_milk, buy_eggs] ! k = buy_milk
         \<and> Stored [buy_eggs] = Stored (take k [buy_milk, buy_eggs] @ drop (Suc k) [buy_milk, buy_eggs]))
   \<and> run_command (working ''t3'') (MarkDone 1) sample
      = (Inr (buy_milk\<lparr>status := ''done'', updatedAt := ''t3''\<rparr>),
         Stored [buy_milk\<lparr>status := ''done'', updatedAt := ''t3''\<rparr>, buy_eggs])
   \<and> (\<exists>k<length [buy_milk, buy_eggs]. task_id ([buy_milk, buy_eggs] ! k) = 1
         \<and> Stored [buy_milk\<lparr>status := ''done'', updatedAt := ''t3''\<rparr>, buy_eggs]
           = Stored ([buy_milk, buy_eggs][k := buy_milk\<lparr>status := ''done'', updatedAt := ''t3''\<rparr>]))"
proof -
  have h: "get_tasks (working ''t3'') sample = Inr [buy_milk, buy_eggs]"
    by (rule get_tasks_sample)
  have a: "run_command (working ''t3'') (Add ''Buy bread'') sample
      = (Inr \<lparr>task_id = 4, description = ''Buy bread'', status = ''todo'',
               createdAt = ''t3'', updatedAt = ''t3''\<rparr>,
         Stored ([buy_milk, buy_eggs] @
                 [\<lparr>task_id = 4, description = ''Buy bread'', status = ''todo'',
                   createdAt = ''t3'', updatedAt = ''t3''\<rparr>]))"
    by (simp add: manager_defs sample_defs)
  have d: "run_command (working ''t3'') (Delete 1) sample = (Inr buy_milk, Stored [buy_eggs])"
    by (simp add: manager_defs sample_defs)
  have m: "run_command (working ''t3'') (MarkDone 1) sample
      = (Inr (buy_milk\<lparr>status := ''done'', updatedAt := ''t3''\<rparr>),
         Stored [buy_milk\<lparr>status := ''done'', updatedAt := ''t3''\<rparr>, buy_eggs])"
    by (simp add: manager_defs sample_defs)
  have d': "\<exists>k<length [buy_milk, buy_eggs]. [buy_milk, buy_eggs] ! k = buy_milk
         \<and> Stored [buy_eggs] = Stored (take k [buy_milk, buy_eggs] @ drop (Suc k) [buy_milk, buy_eggs])"
    using mutation_changes_one_record [OF h d] by auto
  have m': "\<exists>k<length [buy_milk, buy_eggs]. task_id ([buy_milk, buy_eggs] ! k) = 1
         \<and> Stored [buy_milk\<lparr>status := ''done'', updatedAt := ''t3''\<rparr>, buy_eggs]
           = Stored ([buy_milk, buy_eggs][k := buy_milk\<lparr>status := ''done'', updatedAt := ''t3''\<rparr>])"
    using mutation_changes_one_record [OF h m] by auto
  from mutation_changes_one_record [OF h a] h a d d' m m' show ?thesis by blast
qed

end
